theory Spec2Isabelle
  imports Main
begin

section \<open>Syntax tree\<close>

text \<open>
  The rules receive ESTree nodes from the traversal engine. A node is modelled with the
  fields the rules read: \<open>type\<close>, \<open>name\<close>, \<open>value\<close> (only through
  \<open>typeof value === 'string'\<close>), \<open>expressions\<close>, \<open>operator\<close>, \<open>properties\<close>,
  \<open>callee\<close>, \<open>arguments\<close>, \<open>object\<close>, \<open>property\<close>, and for an entry of an object
  literal its \<open>type\<close> and \<open>key\<close>. The \<open>computed\<close> flag of a member access
  (\<open>logger[x]\<close>) and that of a property (\<open>{[k]: v}\<close>, here \<open>key_computed\<close>) are carried
  as well, because the contracts of the classifier and of the checkers speak of computed
  access and computed keys; no rule reads either flag.
  Every other node kind is \<open>OtherNode\<close>, whose \<open>type\<close> is none of the strings the
  rules compare with.
\<close>

datatype lit_value =
    StringValue string
  | NumberValue
  | BooleanValue bool
  | NullValue
  | RegExpValue
  | BigIntValue

fun typeof :: "lit_value \<Rightarrow> string" where
  "typeof (StringValue s) = ''string''"
| "typeof NumberValue = ''number''"
| "typeof (BooleanValue b) = ''boolean''"
| "typeof NullValue = ''object''"
| "typeof RegExpValue = ''object''"
| "typeof BigIntValue = ''bigint''"

datatype node =
    Identifier (name: string)
  | Literal (val: lit_value)
  | TemplateLiteral (expressions: "node list")
  | BinaryExpression (operator: string)
  | ObjectExpression (properties: "entry list")
  | MemberExpression (object: node) (property: node) (computed: bool)
  | CallExpression (callee: node) (arguments: "node list")
  | OtherNode
and entry =
    Property (key: node) (key_computed: bool)
  | SpreadElement

fun node_type :: "node \<Rightarrow> string" where
  "node_type (Identifier n) = ''Identifier''"
| "node_type (Literal v) = ''Literal''"
| "node_type (TemplateLiteral es) = ''TemplateLiteral''"
| "node_type (BinaryExpression opr) = ''BinaryExpression''"
| "node_type (ObjectExpression ps) = ''ObjectExpression''"
| "node_type (MemberExpression ob pr c) = ''MemberExpression''"
| "node_type (CallExpression c as) = ''CallExpression''"
| "node_type OtherNode = ''Other''"

fun prop_type :: "entry \<Rightarrow> string" where
  "prop_type (Property k c) = ''Property''"
| "prop_type SpreadElement = ''SpreadElement''"

text \<open>\<open>node.arguments[0]\<close>, which is \<open>undefined\<close> for a call without arguments.\<close>

definition first_argument :: "node \<Rightarrow> node option" where
  "first_argument node = (case arguments node of [] \<Rightarrow> None | a # rest \<Rightarrow> Some a)"

section \<open>Reports\<close>

text \<open>
  \<open>context.report\<close> takes a descriptor: the node the report is anchored at, either a
  rendered \<open>message\<close> or a \<open>messageId\<close> with its \<open>data\<close>, and optionally a \<open>fix\<close>
  function. The fix is modelled by what that function returns: \<open>Some (target, text)\<close> for
  \<open>fixer.replaceText(target, text)\<close>, \<open>None\<close> for \<open>null\<close> and for a descriptor without
  a \<open>fix\<close>.
\<close>

datatype anchor = AtNode node | AtProp entry

datatype msg = Message string | MessageId string "(string \<times> string) list"

datatype report = Report (rnode: anchor) (rmsg: msg) (rfix: "(node \<times> string) option")

section \<open>Strings\<close>

text \<open>
  Names are strings of code units; the model covers the code units 0 to 255 (one
  \<open>char\<close> each, read as Latin-1). On this range \<open>String.prototype.toLowerCase\<close> maps
  \<open>A\<close>-\<open>Z\<close> and the letters U+00C0 to U+00DE (without the multiplication sign U+00D7)
  to the code unit 32 above, and leaves every other code unit as it is.
\<close>

definition in_range :: "char \<Rightarrow> char \<Rightarrow> char \<Rightarrow> bool" where
  "in_range lo hi c = ((of_char lo :: nat) \<le> of_char c \<and> (of_char c :: nat) \<le> of_char hi)"

definition toLowerCase_char :: "char \<Rightarrow> char" where
  "toLowerCase_char c =
     (let n = (of_char c :: nat)
      in if (65 \<le> n \<and> n \<le> 90) \<or> (192 \<le> n \<and> n \<le> 222 \<and> n \<noteq> 215)
         then char_of (n + 32) else c)"

definition toLowerCase :: "string \<Rightarrow> string" where
  "toLowerCase s = map toLowerCase_char s"

text \<open>
  A regular expression with the \<open>i\<close> flag (and without \<open>u\<close>) compares code units after
  \<open>Canonicalize\<close>: the code unit of the upper-cased character, unless upper-casing gives
  more than one code unit (U+00DF) or takes a non-ASCII character to ASCII. The result
  can leave the range 0 to 255 (U+00B5 and U+00FF), so it is a number.
\<close>

definition canonicalize :: "char \<Rightarrow> nat" where
  "canonicalize c =
     (let n = (of_char c :: nat)
      in if (97 \<le> n \<and> n \<le> 122) \<or> (224 \<le> n \<and> n \<le> 254 \<and> n \<noteq> 247) then n - 32
         else if n = 181 then 924
         else if n = 255 then 376
         else n)"

text \<open>
  The six sensitive patterns are literal words under the \<open>i\<close> flag, not anchored:
  \<open>pattern.test(s)\<close> holds when the word occurs in \<open>s\<close> at some position.
\<close>

fun matches_here :: "string \<Rightarrow> string \<Rightarrow> bool" where
  "matches_here [] s = True"
| "matches_here (p # ps) [] = False"
| "matches_here (p # ps) (c # cs) = (canonicalize p = canonicalize c \<and> matches_here ps cs)"

fun test_i :: "string \<Rightarrow> string \<Rightarrow> bool" where
  "test_i pat [] = matches_here pat []"
| "test_i pat (c # cs) = (matches_here pat (c # cs) \<or> test_i pat cs)"

section \<open>Call classifier\<close>

definition logMethods :: "string list" where
  "logMethods = [''trace'', ''debug'', ''info'', ''warn'', ''error'', ''fatal'']"

text \<open>\<open>isLoggerCall\<close>, the same function in four of the five rules.\<close>

definition isLoggerCall :: "node \<Rightarrow> bool" where
  "isLoggerCall node =
     (if node_type (callee node) \<noteq> ''MemberExpression'' then False
      else
        let obj = object (callee node); prop = property (callee node)
        in if node_type obj = ''Identifier'' \<and> (name obj = ''logger'' \<or> name obj = ''log'')
           then (if node_type prop = ''Identifier''
                 then name prop \<in> set logMethods
                 else False)
           else False)"

text \<open>\<open>isLoggerErrorCall\<close> of the rule error-requires-err.\<close>

definition isLoggerErrorCall :: "node \<Rightarrow> bool" where
  "isLoggerErrorCall node =
     (if node_type (callee node) \<noteq> ''MemberExpression'' then False
      else
        let obj = object (callee node); prop = property (callee node)
        in if node_type obj = ''Identifier'' \<and> (name obj = ''logger'' \<or> name obj = ''log'')
           then (if node_type prop = ''Identifier''
                 then name prop = ''error'' \<or> name prop = ''fatal''
                 else False)
           else False)"

section \<open>Case analyzer (rule field-naming)\<close>

text \<open>The character classes \<open>[a-z0-9_]\<close> and \<open>[a-zA-Z0-9]\<close>.\<close>

definition snake_char :: "char \<Rightarrow> bool" where
  "snake_char d = (in_range CHR ''a'' CHR ''z'' d \<or> in_range CHR ''0'' CHR ''9'' d \<or> d = CHR ''_'')"

definition camel_char :: "char \<Rightarrow> bool" where
  "camel_char d =
     (in_range CHR ''a'' CHR ''z'' d \<or> in_range CHR ''A'' CHR ''Z'' d \<or> in_range CHR ''0'' CHR ''9'' d)"

text \<open>\<open>/^[a-z][a-z0-9_]*$/.test(str)\<close>; without the \<open>m\<close> flag \<open>$\<close> is the end of the input.\<close>

definition isSnakeCase :: "string \<Rightarrow> bool" where
  "isSnakeCase str =
     (case str of
        [] \<Rightarrow> False
      | c # cs \<Rightarrow> in_range CHR ''a'' CHR ''z'' c \<and> list_all snake_char cs)"

text \<open>\<open>/^[a-z][a-zA-Z0-9]*$/.test(str)\<close>\<close>

definition isCamelCase :: "string \<Rightarrow> bool" where
  "isCamelCase str =
     (case str of
        [] \<Rightarrow> False
      | c # cs \<Rightarrow> in_range CHR ''a'' CHR ''z'' c \<and> list_all camel_char cs)"

text \<open>\<open>str.replace(/([A-Z])/g, '_$1')\<close>: an underscore before every \<open>A\<close>-\<open>Z\<close>.\<close>

definition insert_underscores :: "string \<Rightarrow> string" where
  "insert_underscores str =
     concat (map (\<lambda>c. if in_range CHR ''A'' CHR ''Z'' c then [CHR ''_'', c] else [c]) str)"

text \<open>\<open>.replace(/^_/, '')\<close>: one underscore at the start of the string is removed.\<close>

definition strip_leading_underscore :: "string \<Rightarrow> string" where
  "strip_leading_underscore str =
     (case str of [] \<Rightarrow> [] | c # cs \<Rightarrow> if c = CHR ''_'' then cs else c # cs)"

definition toSnakeCase :: "string \<Rightarrow> string" where
  "toSnakeCase str = strip_leading_underscore (toLowerCase (insert_underscores str))"

section \<open>Rule no-sensitive-data\<close>

definition SENSITIVE_FIELD_NAMES :: "string list" where
  "SENSITIVE_FIELD_NAMES =
     [''password'', ''pwd'', ''passwd'', ''secret'', ''api_key'', ''apikey'', ''token'',
      ''access_token'', ''refresh_token'', ''jwt'', ''bearer'', ''auth'', ''authorization'',
      ''credit_card'', ''card_number'', ''cvv'', ''ssn'', ''private_key'', ''privatekey'']"

definition SENSITIVE_PATTERNS :: "string list" where
  "SENSITIVE_PATTERNS = [''password'', ''secret'', ''token'', ''key'', ''auth'', ''credential'']"

definition quoted :: "string \<Rightarrow> string" where
  "quoted s = [CHR 0x27] @ s @ [CHR 0x27]"

definition sensitiveMessage :: "string \<Rightarrow> string" where
  "sensitiveMessage n =
     ''Sensitive field '' @ quoted n @
     '' should not be logged. Use serializers to redact sensitive data.''"

definition potentiallySensitiveMessage :: "string \<Rightarrow> string" where
  "potentiallySensitiveMessage n =
     ''Potentially sensitive field '' @ quoted n @
     '' detected. Use serializers if this contains sensitive data.''"

text \<open>The inner loop of \<open>checkObjectForSensitiveData\<close>: it leaves at the first pattern that matches.\<close>

fun checkPatterns :: "string list \<Rightarrow> entry \<Rightarrow> string \<Rightarrow> report list" where
  "checkPatterns [] prop keyName = []"
| "checkPatterns (pattern # rest) prop keyName =
     (if test_i pattern keyName
      then [Report (AtProp prop) (Message (potentiallySensitiveMessage (name (key prop)))) None]
      else checkPatterns rest prop keyName)"

text \<open>The outer loop, over \<open>node.properties\<close>; \<open>continue\<close> goes on with the rest.\<close>

fun checkProperties :: "entry list \<Rightarrow> report list" where
  "checkProperties [] = []"
| "checkProperties (prop # rest) =
     (if prop_type prop = ''Property'' \<and> node_type (key prop) = ''Identifier''
      then
        let keyName = toLowerCase (name (key prop))
        in if keyName \<in> set SENSITIVE_FIELD_NAMES
           then Report (AtProp prop) (Message (sensitiveMessage (name (key prop)))) None
                  # checkProperties rest
           else checkPatterns SENSITIVE_PATTERNS prop keyName @ checkProperties rest
      else checkProperties rest)"

definition checkObjectForSensitiveData :: "node \<Rightarrow> report list" where
  "checkObjectForSensitiveData node =
     (if node_type node \<noteq> ''ObjectExpression'' then [] else checkProperties (properties node))"

text \<open>
  \<open>create\<close>: the option \<open>blockedFields\<close> is \<open>None\<close> when the rule has no options or the
  options have no such field. \<open>allBlockedFields\<close> is computed when the rule is set up;
  the handler of \<open>CallExpression\<close> follows.
\<close>

definition customBlockedFields :: "string list option \<Rightarrow> string list" where
  "customBlockedFields blockedFields = (case blockedFields of None \<Rightarrow> [] | Some fs \<Rightarrow> fs)"

definition allBlockedFields :: "string list option \<Rightarrow> string list" where
  "allBlockedFields blockedFields =
     SENSITIVE_FIELD_NAMES @ map toLowerCase (customBlockedFields blockedFields)"

definition noSensitiveData :: "string list option \<Rightarrow> node \<Rightarrow> report list" where
  "noSensitiveData blockedFields node =
     (let allBlocked = allBlockedFields blockedFields
      in if \<not> isLoggerCall node then []
         else
           let firstArg = first_argument node
           in if firstArg \<noteq> None \<and> node_type (the firstArg) = ''ObjectExpression''
              then checkObjectForSensitiveData (the firstArg)
              else [])"

section \<open>Rule no-string-concat\<close>

text \<open>The loop over \<open>node.arguments\<close>; both tests are made on every argument.\<close>

fun checkArguments :: "node list \<Rightarrow> report list" where
  "checkArguments [] = []"
| "checkArguments (arg # rest) =
     (if node_type arg = ''TemplateLiteral'' \<and> length (expressions arg) > 0
      then [Report (AtNode arg) (MessageId ''noTemplateLiteral'' []) None] else [])
     @ (if node_type arg = ''BinaryExpression'' \<and> operator arg = ''+''
        then [Report (AtNode arg) (MessageId ''noStringConcat'' []) None] else [])
     @ checkArguments rest"

definition noStringConcat :: "node \<Rightarrow> report list" where
  "noStringConcat node = (if \<not> isLoggerCall node then [] else checkArguments (arguments node))"

section \<open>Rule error-requires-err\<close>

definition hasErrProperty :: "node option \<Rightarrow> bool" where
  "hasErrProperty node =
     (if node = None \<or> node_type (the node) \<noteq> ''ObjectExpression'' then False
      else list_ex
             (\<lambda>prop. if prop_type prop = ''Property'' \<and> node_type (key prop) = ''Identifier''
                     then name (key prop) = ''err'' \<or> name (key prop) = ''error''
                     else False)
             (properties (the node)))"

definition missingErrObject :: "node \<Rightarrow> report" where
  "missingErrObject node = Report (AtNode node) (MessageId ''missingErrObject'' []) None"

definition errorRequiresErr :: "node \<Rightarrow> report list" where
  "errorRequiresErr node =
     (if \<not> isLoggerErrorCall node then []
      else
        let firstArg = first_argument node
        in if firstArg \<noteq> None \<and> node_type (the firstArg) = ''Literal''
                \<and> typeof (val (the firstArg)) = ''string''
           then [missingErrObject node]
           else if firstArg \<noteq> None \<and> node_type (the firstArg) = ''ObjectExpression''
           then (if \<not> hasErrProperty firstArg then [missingErrObject node] else [])
           else if firstArg \<noteq> None then []
           else [missingErrObject node])"

section \<open>Rule requires-message\<close>

definition missingMessage :: "node \<Rightarrow> string \<Rightarrow> report" where
  "missingMessage node methodName =
     Report (AtNode node) (MessageId ''missingMessage'' [(''method'', methodName)]) None"

definition requiresMessage :: "node \<Rightarrow> report list" where
  "requiresMessage node =
     (if \<not> isLoggerCall node then []
      else
        let methodName = name (property (callee node))
        in if length (arguments node) = 0 then [missingMessage node methodName]
           else if length (arguments node) = 1
           then (let firstArg = arguments node ! 0
                 in if node_type firstArg = ''ObjectExpression''
                    then [missingMessage node methodName] else [])
           else [])"

section \<open>Rule field-naming\<close>

text \<open>
  \<open>options.convention || 'snake_case'\<close>: the option is \<open>None\<close> when it is not given, and the
  empty string is falsy as well.
\<close>

definition convention :: "string option \<Rightarrow> string" where
  "convention opt = (case opt of None \<Rightarrow> ''snake_case'' | Some c \<Rightarrow> if c = [] then ''snake_case'' else c)"

definition checkNaming :: "string \<Rightarrow> string \<Rightarrow> bool" where
  "checkNaming conv fieldName =
     (if conv = ''snake_case'' then isSnakeCase fieldName
      else if conv = ''camelCase'' then isCamelCase fieldName
      else True)"

definition getSuggestion :: "string \<Rightarrow> string \<Rightarrow> string" where
  "getSuggestion conv fieldName = (if conv = ''snake_case'' then toSnakeCase fieldName else fieldName)"

definition standardFields :: "string list" where
  "standardFields = [''err'', ''error'', ''req'', ''res'', ''msg'', ''time'', ''level'', ''pid'', ''hostname'']"

text \<open>The \<open>fix\<close> function of a report, called: the replacement of the key, or \<open>null\<close>.\<close>

definition fix_result :: "string \<Rightarrow> entry \<Rightarrow> string \<Rightarrow> string \<Rightarrow> (node \<times> string) option" where
  "fix_result conv prop fieldName suggestion =
     (if suggestion \<noteq> fieldName \<and> checkNaming conv suggestion
      then Some (key prop, suggestion) else None)"

fun checkFields :: "string \<Rightarrow> entry list \<Rightarrow> report list" where
  "checkFields conv [] = []"
| "checkFields conv (prop # rest) =
     (if prop_type prop = ''Property'' \<and> node_type (key prop) = ''Identifier''
      then
        let fieldName = name (key prop)
        in if fieldName \<in> set standardFields then checkFields conv rest
           else if \<not> checkNaming conv fieldName
           then
             let suggestion = getSuggestion conv fieldName
             in Report (AtNode (key prop))
                  (MessageId ''incorrectNaming''
                     [(''fieldName'', fieldName), (''convention'', conv), (''suggestion'', suggestion)])
                  (fix_result conv prop fieldName suggestion)
                # checkFields conv rest
           else checkFields conv rest
      else checkFields conv rest)"

definition fieldNaming :: "string option \<Rightarrow> node \<Rightarrow> report list" where
  "fieldNaming opt node =
     (let conv = convention opt
      in if \<not> isLoggerCall node then []
         else
           let firstArg = first_argument node
           in if firstArg = None \<or> node_type (the firstArg) \<noteq> ''ObjectExpression'' then []
              else checkFields conv (properties (the firstArg)))"

section \<open>Node kinds\<close>

lemma node_type_Identifier: "(node_type n = ''Identifier'') = (\<exists>s. n = Identifier s)"
  by (cases n) simp_all

lemma node_type_ObjectExpression:
  "(node_type n = ''ObjectExpression'') = (\<exists>ps. n = ObjectExpression ps)"
  by (cases n) simp_all

lemma prop_type_Property: "(prop_type p = ''Property'') = (\<exists>k c. p = Property k c)"
  by (cases p) simp_all

lemma typeof_string: "(typeof v = ''string'') = (\<exists>s. v = StringValue s)"
  by (cases v) simp_all

text \<open>
  The classifier of error-requires-err accepts the calls that the shared classifier
  accepts with the method \<open>error\<close> or \<open>fatal\<close>.
\<close>

lemma isLoggerErrorCall_iff:
  "isLoggerErrorCall node =
     (isLoggerCall node \<and>
      (name (property (callee node)) = ''error'' \<or> name (property (callee node)) = ''fatal''))"
  by (auto simp add: isLoggerErrorCall_def isLoggerCall_def logMethods_def Let_def)

section \<open>Security checker\<close>

lemma checkPatterns_result:
  "checkPatterns pats e keyName =
     (if \<exists>p \<in> set pats. test_i p keyName
      then [Report (AtProp e) (Message (potentiallySensitiveMessage (name (key e)))) None]
      else [])"
  by (induction pats) simp_all

lemma checkProperties_concat:
  "checkProperties ps =
     concat (map (\<lambda>e.
       if prop_type e = ''Property'' \<and> node_type (key e) = ''Identifier''
       then (if toLowerCase (name (key e)) \<in> set SENSITIVE_FIELD_NAMES
             then [Report (AtProp e) (Message (sensitiveMessage (name (key e)))) None]
             else if \<exists>p \<in> set SENSITIVE_PATTERNS. test_i p (toLowerCase (name (key e)))
             then [Report (AtProp e) (Message (potentiallySensitiveMessage (name (key e)))) None]
             else [])
       else []) ps)"
proof (induction ps)
  case Nil
  show ?case by simp
next
  case (Cons q ps)
  then show ?case by (simp add: checkPatterns_result Let_def)
qed

text \<open>The handler never reads the list that \<open>create\<close> builds from the option.\<close>

lemma noSensitiveData_option_unused:
  "noSensitiveData blockedFields node = noSensitiveData None node"
  by (simp add: noSensitiveData_def Let_def)

text \<open>
  C1. A field whose lower-cased key is one of the configured \<open>blockedFields\<close> is to be
  reported as a hard violation. The rule does not do so: with the option
  \<open>{blockedFields: ['user_email']}\<close> the name is in \<open>allBlockedFields\<close>, and
  \<open>logger.info({user_email: ...}, 'login')\<close> is reported by nothing, because
  \<open>checkObjectForSensitiveData\<close> tests the built-in list.
\<close>

theorem blockedFields_field_not_reported:
  "''user_email'' \<in> set (allBlockedFields (Some [''user_email'']))
   \<and> noSensitiveData (Some [''user_email''])
        (CallExpression (MemberExpression (Identifier ''logger'') (Identifier ''info'') False)
           [ObjectExpression [Property (Identifier ''user_email'') False], Literal (StringValue ''login'')])
      = []"
  by code_simp

text \<open>
  Where no name is configured, the exact list of the rule's contract (the built-in names
  and the configured ones, \<open>allBlockedFields\<close>) is the list the loop tests, and the reports
  of a log call are those of its entries in order: the hard report alone when the
  lower-cased key is in the exact list, otherwise one softer report when some pattern
  matches, otherwise nothing.
\<close>

lemma sensitive_reports_without_configured_names:
  assumes "isLoggerCall (CallExpression c (ObjectExpression ps # rest))"
    and "customBlockedFields blockedFields = []"
  shows "noSensitiveData blockedFields (CallExpression c (ObjectExpression ps # rest)) =
     concat (map (\<lambda>e.
       if prop_type e = ''Property'' \<and> node_type (key e) = ''Identifier''
       then (if toLowerCase (name (key e)) \<in> set (allBlockedFields blockedFields)
             then [Report (AtProp e) (Message (sensitiveMessage (name (key e)))) None]
             else if \<exists>p \<in> set SENSITIVE_PATTERNS. test_i p (toLowerCase (name (key e)))
             then [Report (AtProp e) (Message (potentiallySensitiveMessage (name (key e)))) None]
             else [])
       else []) ps)"
proof -
  from assms(2) have eq: "allBlockedFields blockedFields = SENSITIVE_FIELD_NAMES"
    by (simp add: allBlockedFields_def)
  from assms(1) have "noSensitiveData blockedFields (CallExpression c (ObjectExpression ps # rest))
      = checkProperties ps"
    by (simp add: noSensitiveData_def first_argument_def checkObjectForSensitiveData_def Let_def)
  then show ?thesis
    unfolding eq by (simp only: checkProperties_concat [of ps])
qed

text \<open>
  C6. A field whose lower-cased key is in the exact sensitive-name list is to get the hard
  report alone, the pattern layer being skipped. The exact list holds the configured names
  as well, and there the rule does otherwise: with the option
  \<open>{blockedFields: ['passwordhash']}\<close> the lower-cased key of \<open>passwordHash\<close> is in
  \<open>allBlockedFields\<close>, and \<open>logger.info({passwordHash: y}, 'login')\<close> gets the softer
  report of the pattern layer, because the loop tests the built-in list. A built-in name
  in mixed case, \<open>PassWord\<close>, gets the hard report.
\<close>

theorem configured_exact_name_gets_soft_report:
  "toLowerCase ''passwordHash'' \<in> set (allBlockedFields (Some [''passwordhash'']))
   \<and> noSensitiveData (Some [''passwordhash''])
        (CallExpression (MemberExpression (Identifier ''logger'') (Identifier ''info'') False)
           [ObjectExpression [Property (Identifier ''passwordHash'') False],
            Literal (StringValue ''login'')])
      = [Report (AtProp (Property (Identifier ''passwordHash'') False))
           (Message (potentiallySensitiveMessage ''passwordHash'')) None]
   \<and> noSensitiveData (Some [''passwordhash''])
        (CallExpression (MemberExpression (Identifier ''logger'') (Identifier ''info'') False)
           [ObjectExpression [Property (Identifier ''PassWord'') False],
            Literal (StringValue ''login'')])
      = [Report (AtProp (Property (Identifier ''PassWord'') False))
           (Message (sensitiveMessage ''PassWord'')) None]"
  by code_simp

section \<open>Call classifier and computed member access\<close>

text \<open>
  C2, as the code has it. For a call whose callee is a computed member access, the
  classifier answers true exactly when the base is the identifier \<open>logger\<close> or \<open>log\<close> and
  the bracketed expression is itself an identifier spelled as one of the six method names:
  the \<open>computed\<close> flag is not read. When the classifier answers false, none of the five
  rules reports anything for the call.
\<close>

theorem computed_callee_classification:
  "(isLoggerCall (CallExpression (MemberExpression obj prp True) args) =
      (node_type obj = ''Identifier'' \<and> (name obj = ''logger'' \<or> name obj = ''log'')
       \<and> node_type prp = ''Identifier'' \<and> name prp \<in> set logMethods))
   \<and> (\<not> isLoggerCall (CallExpression (MemberExpression obj prp True) args) \<longrightarrow>
        noSensitiveData blockedFields (CallExpression (MemberExpression obj prp True) args) = []
      \<and> noStringConcat (CallExpression (MemberExpression obj prp True) args) = []
      \<and> errorRequiresErr (CallExpression (MemberExpression obj prp True) args) = []
      \<and> fieldNaming opt (CallExpression (MemberExpression obj prp True) args) = []
      \<and> requiresMessage (CallExpression (MemberExpression obj prp True) args) = [])"
proof -
  let ?n = "CallExpression (MemberExpression obj prp True) args"
  have a: "isLoggerCall ?n =
      (node_type obj = ''Identifier'' \<and> (name obj = ''logger'' \<or> name obj = ''log'')
       \<and> node_type prp = ''Identifier'' \<and> name prp \<in> set logMethods)"
    by (auto simp add: isLoggerCall_def Let_def)
  have b: "\<not> isLoggerCall ?n \<Longrightarrow> \<not> isLoggerErrorCall ?n"
    by (simp add: isLoggerErrorCall_iff)
  have c: "\<not> isLoggerCall ?n \<Longrightarrow>
      noSensitiveData blockedFields ?n = [] \<and> noStringConcat ?n = [] \<and> errorRequiresErr ?n = []
      \<and> fieldNaming opt ?n = [] \<and> requiresMessage ?n = []"
    using b
    by (simp add: noSensitiveData_def noStringConcat_def errorRequiresErr_def fieldNaming_def
          requiresMessage_def Let_def)
  from a c show ?thesis by blast
qed

text \<open>\<open>logger['info']()\<close>: the bracketed expression is a string literal, nothing is reported.\<close>

theorem computed_callee_classification_witness:
  "\<not> isLoggerCall
       (CallExpression (MemberExpression (Identifier ''logger'') (Literal (StringValue ''info'')) True) [])
   \<and> requiresMessage
       (CallExpression (MemberExpression (Identifier ''logger'') (Literal (StringValue ''info'')) True) [])
     = []"
proof -
  have h: "\<not> isLoggerCall
       (CallExpression (MemberExpression (Identifier ''logger'') (Literal (StringValue ''info'')) True) [])"
    by (simp add: isLoggerCall_def)
  from computed_callee_classification
         [of "Identifier ''logger''" "Literal (StringValue ''info'')" "[]" None None] h
  show ?thesis by blast
qed

text \<open>
  \<open>logger[info]()\<close>, where \<open>info\<close> is a variable: the callee is computed, the call is
  classified as a log call all the same, and requires-message reports it.
\<close>

theorem computed_identifier_callee_is_log_call:
  "isLoggerCall (CallExpression (MemberExpression (Identifier ''logger'') (Identifier ''info'') True) [])
   \<and> requiresMessage
        (CallExpression (MemberExpression (Identifier ''logger'') (Identifier ''info'') True) [])
      = [missingMessage
           (CallExpression (MemberExpression (Identifier ''logger'') (Identifier ''info'') True) [])
           ''info'']"
  by (simp add: isLoggerCall_def logMethods_def requiresMessage_def)

section \<open>Case analyzer\<close>

text \<open>
  C3, as the code has it. \<open>isSnakeCase\<close> and \<open>isCamelCase\<close> both hold exactly for the
  strings that start with a lower-case letter and go on with lower-case letters and digits
  only; on these the two conventions overlap.
\<close>

theorem snake_and_camel_overlap:
  "(isSnakeCase s \<and> isCamelCase s) =
     (case s of [] \<Rightarrow> False
      | c # cs \<Rightarrow> in_range CHR ''a'' CHR ''z'' c \<and>
          list_all (\<lambda>d. in_range CHR ''a'' CHR ''z'' d \<or> in_range CHR ''0'' CHR ''9'' d) cs)"
proof (cases s)
  case Nil
  then show ?thesis by (simp add: isSnakeCase_def)
next
  case (Cons c cs)
  have "(list_all snake_char cs \<and> list_all camel_char cs) =
          list_all (\<lambda>d. in_range CHR ''a'' CHR ''z'' d \<or> in_range CHR ''0'' CHR ''9'' d) cs"
    by (induction cs) (auto simp add: snake_char_def camel_char_def in_range_def)
  with Cons show ?thesis by (auto simp add: isSnakeCase_def isCamelCase_def)
qed

theorem snake_and_camel_overlap_witness: "isSnakeCase ''user1'' \<and> isCamelCase ''user1''"
  using snake_and_camel_overlap [of "''user1''"] by (simp add: in_range_def)

text \<open>The string \<open>abc\<close> is snake_case and camelCase at once.\<close>

theorem abc_is_snake_and_camel: "isSnakeCase ''abc'' \<and> isCamelCase ''abc''"
  by (simp add: isSnakeCase_def isCamelCase_def snake_char_def camel_char_def in_range_def)

lemma snake_char_not_upper: "snake_char c \<Longrightarrow> \<not> in_range CHR ''A'' CHR ''Z'' c"
  by (auto simp add: snake_char_def in_range_def)

lemma snake_char_toLowerCase_char: "snake_char c \<Longrightarrow> toLowerCase_char c = c"
  by (auto simp add: snake_char_def in_range_def toLowerCase_char_def Let_def)

lemma insert_underscores_snake: "list_all snake_char s \<Longrightarrow> insert_underscores s = s"
  by (induction s) (simp_all add: insert_underscores_def snake_char_not_upper)

lemma toLowerCase_snake: "list_all snake_char s \<Longrightarrow> toLowerCase s = s"
  by (induction s) (simp_all add: toLowerCase_def snake_char_toLowerCase_char)

lemma toSnakeCase_snake:
  "list_all snake_char s \<Longrightarrow> toSnakeCase s = strip_leading_underscore s"
  by (simp add: toSnakeCase_def insert_underscores_snake toLowerCase_snake)

text \<open>
  C4, as the code has it. For a string of lower-case letters, digits and underscores
  only: if it does not begin with an underscore, \<open>toSnakeCase\<close> returns it unchanged; if
  it begins with an underscore, \<open>toSnakeCase\<close> returns it without that first underscore.
\<close>

theorem toSnakeCase_on_snake_chars:
  assumes "list_all snake_char s"
  shows "(take 1 s \<noteq> ''_'' \<longrightarrow> toSnakeCase s = s)
       \<and> (\<forall>r. s = CHR ''_'' # r \<longrightarrow> toSnakeCase s = r)"
  using toSnakeCase_snake [OF assms]
  by (cases s) (auto simp add: strip_leading_underscore_def)

theorem toSnakeCase_on_snake_chars_witness:
  "list_all snake_char ''user_id'' \<and> take 1 ''user_id'' \<noteq> ''_''
     \<and> toSnakeCase ''user_id'' = ''user_id''"
proof -
  have h: "list_all snake_char ''user_id''"
    by (simp add: snake_char_def in_range_def)
  from toSnakeCase_on_snake_chars [OF h] h show ?thesis by simp
qed

text \<open>
  The string \<open>_id\<close> has lower-case letters and an underscore only, and \<open>toSnakeCase\<close>
  changes it (to \<open>id\<close>).
\<close>

theorem toSnakeCase_strips_own_underscore:
  "list_all snake_char ''_id'' \<and> toSnakeCase ''_id'' \<noteq> ''_id''"
  by (simp add: snake_char_def in_range_def toSnakeCase_def insert_underscores_def
        toLowerCase_def toLowerCase_char_def strip_leading_underscore_def)

section \<open>Field-naming checker\<close>

lemma checkFields_report:
  "r \<in> set (checkFields conv ps) \<Longrightarrow>
     \<exists>k. rnode r = AtNode k \<and> \<not> checkNaming conv (name k)
       \<and> rmsg r = MessageId ''incorrectNaming''
                    [(''fieldName'', name k), (''convention'', conv),
                     (''suggestion'', getSuggestion conv (name k))]
       \<and> rfix r = (if getSuggestion conv (name k) \<noteq> name k
                        \<and> checkNaming conv (getSuggestion conv (name k))
                    then Some (k, getSuggestion conv (name k)) else None)"
proof (induction ps)
  case Nil
  then show ?case by simp
next
  case (Cons q ps)
  show ?case
  proof (cases "prop_type q = ''Property'' \<and> node_type (key q) = ''Identifier''
                 \<and> name (key q) \<notin> set standardFields \<and> \<not> checkNaming conv (name (key q))")
    case True
    then have "checkFields conv (q # ps) =
        Report (AtNode (key q))
          (MessageId ''incorrectNaming''
             [(''fieldName'', name (key q)), (''convention'', conv),
              (''suggestion'', getSuggestion conv (name (key q)))])
          (fix_result conv q (name (key q)) (getSuggestion conv (name (key q))))
        # checkFields conv ps"
      by (simp add: Let_def)
    with Cons.prems consider
        "r = Report (AtNode (key q))
          (MessageId ''incorrectNaming''
             [(''fieldName'', name (key q)), (''convention'', conv),
              (''suggestion'', getSuggestion conv (name (key q)))])
          (fix_result conv q (name (key q)) (getSuggestion conv (name (key q))))"
      | "r \<in> set (checkFields conv ps)"
      by auto
    then show ?thesis
    proof cases
      case 1
      with True show ?thesis by (simp add: fix_result_def)
    next
      case 2
      then show ?thesis by (rule Cons.IH)
    qed
  next
    case False
    then have "checkFields conv (q # ps) = checkFields conv ps"
      by (auto simp add: Let_def)
    with Cons.prems have "r \<in> set (checkFields conv ps)" by simp
    then show ?thesis by (rule Cons.IH)
  qed
qed

text \<open>
  C5. Every report of the field-naming rule is anchored at a key \<open>k\<close> whose name fails the
  configured convention, and its fix replaces \<open>k\<close> by the suggestion exactly when the
  suggestion differs from the name and itself passes the convention check; otherwise there
  is no fix. So an applied fix always yields a name that passes the check, and under
  \<open>camelCase\<close>, where the suggestion is the name itself, no report has a fix.
\<close>

theorem naming_fix_only_when_valid:
  assumes "r \<in> set (fieldNaming opt node)"
  shows "\<exists>k. rnode r = AtNode k \<and> \<not> checkNaming (convention opt) (name k)
           \<and> rfix r = (if getSuggestion (convention opt) (name k) \<noteq> name k
                            \<and> checkNaming (convention opt) (getSuggestion (convention opt) (name k))
                        then Some (k, getSuggestion (convention opt) (name k)) else None)
           \<and> (convention opt = ''camelCase'' \<longrightarrow> rfix r = None)"
proof -
  from assms have "r \<in> set (checkFields (convention opt) (properties (the (first_argument node))))"
    by (simp add: fieldNaming_def Let_def split: if_splits)
  from checkFields_report [OF this] obtain k where
    k: "rnode r = AtNode k" "\<not> checkNaming (convention opt) (name k)"
       "rfix r = (if getSuggestion (convention opt) (name k) \<noteq> name k
                            \<and> checkNaming (convention opt) (getSuggestion (convention opt) (name k))
                        then Some (k, getSuggestion (convention opt) (name k)) else None)"
    by blast
  have "convention opt = ''camelCase'' \<longrightarrow> rfix r = None"
    using k(3) by (simp add: getSuggestion_def)
  with k show ?thesis by blast
qed

text \<open>
  \<open>logger.info({userId: 1}, 'x')\<close> under the default convention: the report on \<open>userId\<close>
  carries the fix \<open>user_id\<close>, which is snake_case.
\<close>

theorem naming_fix_only_when_valid_witness:
  "Report (AtNode (Identifier ''userId''))
      (MessageId ''incorrectNaming''
         [(''fieldName'', ''userId''), (''convention'', ''snake_case''), (''suggestion'', ''user_id'')])
      (Some (Identifier ''userId'', ''user_id''))
     \<in> set (fieldNaming None
          (CallExpression (MemberExpression (Identifier ''logger'') (Identifier ''info'') False)
             [ObjectExpression [Property (Identifier ''userId'') False], Literal (StringValue ''x'')]))
   \<and> checkNaming (convention None) ''user_id''"
proof -
  let ?r = "Report (AtNode (Identifier ''userId''))
      (MessageId ''incorrectNaming''
         [(''fieldName'', ''userId''), (''convention'', ''snake_case''), (''suggestion'', ''user_id'')])
      (Some (Identifier ''userId'', ''user_id''))"
  let ?n = "CallExpression (MemberExpression (Identifier ''logger'') (Identifier ''info'') False)
             [ObjectExpression [Property (Identifier ''userId'') False], Literal (StringValue ''x'')]"
  have h: "?r \<in> set (fieldNaming None ?n)"
    by code_simp
  from naming_fix_only_when_valid [OF h] obtain k where
    k: "rnode ?r = AtNode k"
    and f: "rfix ?r = (if getSuggestion (convention None) (name k) \<noteq> name k
                            \<and> checkNaming (convention None) (getSuggestion (convention None) (name k))
                        then Some (k, getSuggestion (convention None) (name k)) else None)"
    by blast
  from k have "k = Identifier ''userId''" by simp
  with f have "checkNaming (convention None) ''user_id''"
    by (simp split: if_splits)
  with h show ?thesis by simp
qed

section \<open>Error-object checker\<close>

text \<open>
  C7, as the code has it. For a log call with the method \<open>error\<close> or \<open>fatal\<close>, the rule
  reports (once, at the call) exactly when the call has no argument, or its first argument
  is a string literal, or its first argument is an object literal without an entry whose
  key node is an identifier named \<open>err\<close> or \<open>error\<close>; for every other first argument it
  reports nothing. The flag \<open>key_computed\<close> of an entry is not read, so a computed key
  \<open>[err]\<close> counts like the plain key \<open>err\<close>.
\<close>

theorem error_object_report_iff:
  assumes "isLoggerCall (CallExpression c args)"
    and "name (property c) = ''error'' \<or> name (property c) = ''fatal''"
  shows "errorRequiresErr (CallExpression c args) =
           (if args = []
               \<or> (\<exists>s rest. args = Literal (StringValue s) # rest)
               \<or> (\<exists>ps rest. args = ObjectExpression ps # rest \<and>
                     \<not> (\<exists>p \<in> set ps. prop_type p = ''Property'' \<and> node_type (key p) = ''Identifier''
                            \<and> (name (key p) = ''err'' \<or> name (key p) = ''error'')))
            then [missingErrObject (CallExpression c args)] else [])"
proof -
  have e: "isLoggerErrorCall (CallExpression c args)"
    using assms by (simp add: isLoggerErrorCall_iff)
  show ?thesis
  proof (cases args)
    case Nil
    with e show ?thesis by (simp add: errorRequiresErr_def first_argument_def)
  next
    case (Cons a rest)
    with e show ?thesis
      by (cases a)
         (auto simp add: errorRequiresErr_def first_argument_def hasErrProperty_def Let_def
            list_ex_iff typeof_string)
  qed
qed

text \<open>\<open>logger.error('failed')\<close> is reported; \<open>logger.error({err}, 'failed')\<close> is not.\<close>

theorem error_object_report_iff_witness:
  "isLoggerCall
     (CallExpression (MemberExpression (Identifier ''logger'') (Identifier ''error'') False)
        [Literal (StringValue ''failed'')])
   \<and> errorRequiresErr
       (CallExpression (MemberExpression (Identifier ''logger'') (Identifier ''error'') False)
          [Literal (StringValue ''failed'')])
     = [missingErrObject
          (CallExpression (MemberExpression (Identifier ''logger'') (Identifier ''error'') False)
             [Literal (StringValue ''failed'')])]
   \<and> errorRequiresErr
       (CallExpression (MemberExpression (Identifier ''logger'') (Identifier ''error'') False)
          [ObjectExpression [Property (Identifier ''err'') False], Literal (StringValue ''failed'')])
     = []"
proof -
  let ?c = "MemberExpression (Identifier ''logger'') (Identifier ''error'') False"
  have h1: "isLoggerCall (CallExpression ?c [Literal (StringValue ''failed'')])"
    by code_simp
  have h2: "isLoggerCall (CallExpression ?c
              [ObjectExpression [Property (Identifier ''err'') False], Literal (StringValue ''failed'')])"
    by code_simp
  have m: "name (property ?c) = ''error'' \<or> name (property ?c) = ''fatal''"
    by simp
  from error_object_report_iff [OF h1 m] error_object_report_iff [OF h2 m] h1
  show ?thesis by simp
qed

text \<open>
  \<open>logger.error({[err]: e}, 'x')\<close>: the only entry of the object has a computed key, so
  the object has no plain identifier key named \<open>err\<close> or \<open>error\<close>, and the rule reports
  nothing.
\<close>

theorem computed_err_key_not_reported:
  "isLoggerCall
     (CallExpression (MemberExpression (Identifier ''logger'') (Identifier ''error'') False)
        [ObjectExpression [Property (Identifier ''err'') True], Literal (StringValue ''x'')])
   \<and> list_all key_computed [Property (Identifier ''err'') True]
   \<and> errorRequiresErr
       (CallExpression (MemberExpression (Identifier ''logger'') (Identifier ''error'') False)
          [ObjectExpression [Property (Identifier ''err'') True], Literal (StringValue ''x'')])
     = []"
  by code_simp

text \<open>
  C10. For a log call with the method \<open>error\<close> or \<open>fatal\<close> whose first argument is a
  template literal, with or without interpolations, the rule reports nothing.
\<close>

theorem error_object_template_literal:
  assumes "isLoggerCall (CallExpression c (TemplateLiteral es # rest))"
    and "name (property c) = ''error'' \<or> name (property c) = ''fatal''"
  shows "errorRequiresErr (CallExpression c (TemplateLiteral es # rest)) = []"
  by (simp add: errorRequiresErr_def first_argument_def Let_def)

text \<open>A bare message in backticks, without interpolation, at the level \<open>error\<close>.\<close>

theorem error_object_template_literal_witness:
  "isLoggerCall
     (CallExpression (MemberExpression (Identifier ''logger'') (Identifier ''error'') False)
        (TemplateLiteral [] # []))
   \<and> errorRequiresErr
       (CallExpression (MemberExpression (Identifier ''logger'') (Identifier ''error'') False)
          (TemplateLiteral [] # []))
     = []"
proof -
  let ?c = "MemberExpression (Identifier ''logger'') (Identifier ''error'') False"
  have h: "isLoggerCall (CallExpression ?c (TemplateLiteral [] # []))"
    by code_simp
  have m: "name (property ?c) = ''error'' \<or> name (property ?c) = ''fatal''"
    by simp
  from error_object_template_literal [OF h m] h show ?thesis by simp
qed

section \<open>Message-presence checker\<close>

text \<open>
  C8. For a log call, the rule reports (once, at the call, with the method name) exactly
  when the call has no argument or its only argument is an object literal; a single
  argument of any other kind, and two or more arguments, give no report.
\<close>

theorem message_presence_report_iff:
  assumes "isLoggerCall (CallExpression c args)"
  shows "requiresMessage (CallExpression c args) =
           (if args = [] \<or> (\<exists>ps. args = [ObjectExpression ps])
            then [missingMessage (CallExpression c args) (name (property c))] else [])"
proof (cases args)
  case Nil
  with assms show ?thesis by (simp add: requiresMessage_def)
next
  case (Cons a rest)
  with assms show ?thesis
    by (cases rest) (auto simp add: requiresMessage_def node_type_ObjectExpression)
qed

text \<open>\<open>logger.info({user_id: 1})\<close> is reported; with a message after the object it is not.\<close>

theorem message_presence_report_iff_witness:
  "isLoggerCall
     (CallExpression (MemberExpression (Identifier ''logger'') (Identifier ''info'') False)
        [ObjectExpression [Property (Identifier ''user_id'') False]])
   \<and> requiresMessage
       (CallExpression (MemberExpression (Identifier ''logger'') (Identifier ''info'') False)
          [ObjectExpression [Property (Identifier ''user_id'') False]])
     = [missingMessage
          (CallExpression (MemberExpression (Identifier ''logger'') (Identifier ''info'') False)
             [ObjectExpression [Property (Identifier ''user_id'') False]])
          ''info'']
   \<and> requiresMessage
       (CallExpression (MemberExpression (Identifier ''logger'') (Identifier ''info'') False)
          [ObjectExpression [Property (Identifier ''user_id'') False], Literal (StringValue ''x'')])
     = []"
proof -
  let ?c = "MemberExpression (Identifier ''logger'') (Identifier ''info'') False"
  have h1: "isLoggerCall (CallExpression ?c [ObjectExpression [Property (Identifier ''user_id'') False]])"
    by code_simp
  have h2: "isLoggerCall (CallExpression ?c
              [ObjectExpression [Property (Identifier ''user_id'') False], Literal (StringValue ''x'')])"
    by code_simp
  from message_presence_report_iff [OF h1] message_presence_report_iff [OF h2] h1
  show ?thesis by simp
qed

section \<open>Structured-logging checker\<close>

lemma checkArguments_concat:
  "checkArguments args =
     concat (map (\<lambda>arg. case arg of
                     TemplateLiteral es \<Rightarrow>
                       if es \<noteq> [] then [Report (AtNode arg) (MessageId ''noTemplateLiteral'' []) None]
                       else []
                   | BinaryExpression opr \<Rightarrow>
                       if opr = ''+'' then [Report (AtNode arg) (MessageId ''noStringConcat'' []) None]
                       else []
                   | _ \<Rightarrow> []) args)"
proof (induction args)
  case Nil
  show ?case by simp
next
  case (Cons a args)
  then show ?case by (cases a) simp_all
qed

lemma checkArguments_no_fix: "r \<in> set (checkArguments args) \<Longrightarrow> rfix r = None"
  by (induction args) (auto split: if_splits)

text \<open>
  C9. For a log call, the reports of the rule are those of its arguments in order, at
  every position: one \<open>noTemplateLiteral\<close> report for a template literal with at least one
  interpolated expression, one \<open>noStringConcat\<close> report for a binary expression with the
  operator \<open>+\<close>, nothing for a template literal without interpolation or for any other
  argument. No report of the rule has a fix.
\<close>

theorem concat_reports_per_argument:
  assumes "isLoggerCall (CallExpression c args)"
  shows "noStringConcat (CallExpression c args) =
           concat (map (\<lambda>arg. case arg of
                     TemplateLiteral es \<Rightarrow>
                       if es \<noteq> [] then [Report (AtNode arg) (MessageId ''noTemplateLiteral'' []) None]
                       else []
                   | BinaryExpression opr \<Rightarrow>
                       if opr = ''+'' then [Report (AtNode arg) (MessageId ''noStringConcat'' []) None]
                       else []
                   | _ \<Rightarrow> []) args)
         \<and> (\<forall>r \<in> set (noStringConcat (CallExpression c args)). rfix r = None)"
  using assms checkArguments_concat [of args] checkArguments_no_fix [of _ args]
  by (simp add: noStringConcat_def)

text \<open>
  A call with an object, an interpolating template, a sum and a plain template: the second
  and the third argument are reported.
\<close>

theorem concat_reports_per_argument_witness:
  "isLoggerCall
     (CallExpression (MemberExpression (Identifier ''logger'') (Identifier ''warn'') False)
        [ObjectExpression [], TemplateLiteral [Identifier ''id''], BinaryExpression ''+'',
         TemplateLiteral []])
   \<and> noStringConcat
       (CallExpression (MemberExpression (Identifier ''logger'') (Identifier ''warn'') False)
          [ObjectExpression [], TemplateLiteral [Identifier ''id''], BinaryExpression ''+'',
           TemplateLiteral []])
     = [Report (AtNode (TemplateLiteral [Identifier ''id''])) (MessageId ''noTemplateLiteral'' []) None,
        Report (AtNode (BinaryExpression ''+'')) (MessageId ''noStringConcat'' []) None]"
proof -
  let ?c = "MemberExpression (Identifier ''logger'') (Identifier ''warn'') False"
  have h: "isLoggerCall (CallExpression ?c
             [ObjectExpression [], TemplateLiteral [Identifier ''id''], BinaryExpression ''+'',
              TemplateLiteral []])"
    by code_simp
  from concat_reports_per_argument [OF h] h show ?thesis by simp
qed

end
